theory Spec2Isabelle
  imports Main "HOL-Library.Code_Target_Nat"
begin

section \<open>Formula Correction: the formula model of \<open>src/App.js\<close>\<close>

text \<open>
  The embedding follows \<open>src/App.js\<close>. Atom counts are JavaScript Numbers that hold
  integers; they are modelled as \<open>int\<close>. On the safe integers (absolute value below
  \<open>2 ^ 53\<close>) the sum, the digits that \<open>parseInt\<close> reads and the digits that
  \<open>ToString\<close> writes are those of the model; beyond them the host rounds to the nearest
  Number, which the model does not. Strings are \<open>string\<close>; a character stands for one
  code unit.
\<close>

subsection \<open>Character classes\<close>

definition isUpper :: "char \<Rightarrow> bool" where
  \<comment> \<open>the class \<open>[A-Z]\<close>\<close>
  "isUpper c = (let n = (of_char c :: nat) in 65 \<le> n \<and> n \<le> 90)"

definition isLower :: "char \<Rightarrow> bool" where
  \<comment> \<open>the class \<open>[a-z]\<close>\<close>
  "isLower c = (let n = (of_char c :: nat) in 97 \<le> n \<and> n \<le> 122)"

definition isDigit :: "char \<Rightarrow> bool" where
  \<comment> \<open>the class \<open>\d\<close>\<close>
  "isDigit c = (let n = (of_char c :: nat) in 48 \<le> n \<and> n \<le> 57)"

definition isHexDigit :: "char \<Rightarrow> bool" where
  "isHexDigit c = (let n = (of_char c :: nat) in
     (48 \<le> n \<and> n \<le> 57) \<or> (65 \<le> n \<and> n \<le> 70) \<or> (97 \<le> n \<and> n \<le> 102))"

definition isWhiteSpace :: "char \<Rightarrow> bool" where
  \<comment> \<open>white space and line terminators of ECMAScript among the code units below 256:
      TAB, LF, VT, FF, CR, SP, NBSP\<close>
  "isWhiteSpace c = (let n = (of_char c :: nat) in (9 \<le> n \<and> n \<le> 13) \<or> n = 32 \<or> n = 160)"

subsection \<open>Numbers to strings and back\<close>

definition digitChar :: "nat \<Rightarrow> char" where
  "digitChar d = char_of (48 + d)"

function digitsOf :: "nat \<Rightarrow> string" where
  "digitsOf n = (if n < 10 then [digitChar n] else digitsOf (n div 10) @ [digitChar (n mod 10)])"
  by pat_completeness auto
termination
  by (relation "measure id") auto

declare digitsOf.simps [simp del]

text \<open>
  \<open>Number::toString\<close>, as the template literal applies it to a count. With \<open>n\<close> the
  number of decimal digits of the value and \<open>s\<close> its digits without the trailing zeros:
  at most 21 digits are written in full; beyond that the value is written in exponent
  form, the first digit of \<open>s\<close>, a point and the other digits of \<open>s\<close> when there are
  any, then \<open>e+\<close> and \<open>n - 1\<close>. The digits are those of the integer itself: they are
  the digits the host writes on the safe integers, and beyond them wherever the digits of
  the integer are the fewest that identify the Number, as for \<open>10 ^ 21\<close>.
\<close>

definition stripTrailingZeros :: "string \<Rightarrow> string" where
  "stripTrailingZeros ds = rev (dropWhile (\<lambda>c. c = CHR ''0'') (rev ds))"

definition mantissa :: "string \<Rightarrow> string" where
  "mantissa s = (case s of [] \<Rightarrow> [] | d # r \<Rightarrow> if r = [] then [d] else d # CHR ''.'' # r)"

definition exponentForm :: "string \<Rightarrow> string" where
  "exponentForm ds = mantissa (stripTrailingZeros ds) @ ''e+'' @ digitsOf (length ds - 1)"

definition magnitudeToString :: "nat \<Rightarrow> string" where
  "magnitudeToString m = (if m < 10 ^ 21 then digitsOf m else exponentForm (digitsOf m))"

definition numberToString :: "int \<Rightarrow> string" where
  "numberToString n =
     (if n < 0 then CHR ''-'' # magnitudeToString (nat (- n)) else magnitudeToString (nat n))"

definition digitVal :: "char \<Rightarrow> nat" where
  "digitVal c = (let n = (of_char c :: nat) in
     if 97 \<le> n then n - 87 else if 65 \<le> n then n - 55 else n - 48)"

definition valueOfDigits :: "nat \<Rightarrow> string \<Rightarrow> nat" where
  "valueOfDigits radix ds = foldl (\<lambda>acc c. radix * acc + digitVal c) 0 ds"

fun stripSign :: "string \<Rightarrow> int \<times> string" where
  "stripSign [] = (1, [])"
| "stripSign (c # cs) =
     (if c = CHR ''-'' then (- 1, cs) else if c = CHR ''+'' then (1, cs) else (1, c # cs))"

fun hexPrefix :: "string \<Rightarrow> bool" where
  "hexPrefix (a # b # cs) = (a = CHR ''0'' \<and> (b = CHR ''x'' \<or> b = CHR ''X''))"
| "hexPrefix cs = False"

definition parseInt :: "string \<Rightarrow> int option" where
  \<comment> \<open>\<open>parseInt(s)\<close> with no radix argument; \<open>None\<close> is \<open>NaN\<close>\<close>
  "parseInt s =
     (case stripSign (dropWhile isWhiteSpace s) of
        (sign, t) \<Rightarrow>
          if hexPrefix t then
            (let ds = takeWhile isHexDigit (drop 2 t)
             in if ds = [] then None else Some (sign * int (valueOfDigits 16 ds)))
          else
            (let ds = takeWhile isDigit t
             in if ds = [] then None else Some (sign * int (valueOfDigits 10 ds))))"

definition orZero :: "int option \<Rightarrow> int" where
  \<comment> \<open>\<open>x || 0\<close> on a Number or \<open>undefined\<close>: \<open>NaN\<close>, \<open>undefined\<close> and zero are falsy\<close>
  "orZero x = (case x of None \<Rightarrow> 0 | Some v \<Rightarrow> if v = 0 then 0 else v)"

subsection \<open>The class \<open>AtomicFormula\<close>\<close>

record AtomicFormula =
  carbon :: int
  hydrogen :: int
  nitrogen :: int
  oxygen :: int
  sulfur :: int
  phosphorus :: int
  chlorine :: int

definition add :: "AtomicFormula \<Rightarrow> AtomicFormula \<Rightarrow> AtomicFormula" where
  "add this other =
     \<lparr>carbon = carbon this + carbon other,
      hydrogen = hydrogen this + hydrogen other,
      nitrogen = nitrogen this + nitrogen other,
      oxygen = oxygen this + oxygen other,
      sulfur = sulfur this + sulfur other,
      phosphorus = phosphorus this + phosphorus other,
      chlorine = chlorine this + chlorine other\<rparr>"

definition toFormulaString :: "AtomicFormula \<Rightarrow> string" where
  "toFormulaString this =
     ''C'' @ numberToString (carbon this) @
     ''H'' @ numberToString (hydrogen this) @
     ''Cl'' @ numberToString (chlorine this) @
     ''N'' @ numberToString (nitrogen this) @
     ''O'' @ numberToString (oxygen this) @
     ''P'' @ numberToString (phosphorus this) @
     ''S'' @ numberToString (sulfur this)"

text \<open>
  One attempt of \<open>/([A-Z][a-z]?)(-?\d*)/\<close> at the head of the remaining text: the two
  groups and the text after the match. Every quantifier is greedy and what follows it
  can match the empty string, so no backtracking takes place.
\<close>

fun matchAt :: "string \<Rightarrow> (string \<times> string \<times> string) option" where
  "matchAt [] = None"
| "matchAt (c # cs) =
     (if isUpper c then
        (let (low, r1) = (case cs of [] \<Rightarrow> ([], []) | l # r \<Rightarrow> if isLower l then ([l], r) else ([], cs));
             (sg, r2) = (case r1 of [] \<Rightarrow> ([], []) | m # r \<Rightarrow> if m = CHR ''-'' then ([m], r) else ([], r1))
         in Some (c # low, sg @ takeWhile isDigit r2, dropWhile isDigit r2))
      else None)"

text \<open>\<open>pattern.exec\<close> of the global pattern: the leftmost match at or after \<open>lastIndex\<close>.\<close>

fun exec :: "string \<Rightarrow> (string \<times> string \<times> string) option" where
  "exec [] = None"
| "exec (c # cs) = (case matchAt (c # cs) of Some r \<Rightarrow> Some r | None \<Rightarrow> exec cs)"

lemma matchAt_shorter: "matchAt s = Some (symb, num, rest) \<Longrightarrow> length rest < length s"
proof (cases s)
  case Nil
  assume "matchAt s = Some (symb, num, rest)"
  with Nil show ?thesis by simp
next
  case (Cons c cs)
  have d: "\<And>xs. length (dropWhile isDigit xs) \<le> length xs"
    by (simp add: length_dropWhile_le)
  assume "matchAt s = Some (symb, num, rest)"
  with Cons show ?thesis
    using d [of cs] d [of "tl cs"] d [of "tl (tl cs)"]
    by (auto split: if_splits list.splits simp: Let_def)
qed

lemma exec_shorter: "exec s = Some (symb, num, rest) \<Longrightarrow> length rest < length s"
proof (induction s)
  case Nil
  then show ?case by simp
next
  case (Cons c cs)
  show ?case
  proof (cases "matchAt (c # cs)")
    case None
    with Cons show ?thesis by simp
  next
    case (Some r)
    with Cons.prems have "matchAt (c # cs) = Some (symb, num, rest)" by simp
    then show ?thesis by (rule matchAt_shorter)
  qed
qed

text \<open>The \<open>while\<close> loop of \<open>parseFormulaString\<close>; \<open>atoms\<close> is the object it fills.\<close>

function parseLoop :: "string \<Rightarrow> (string \<rightharpoonup> int) \<Rightarrow> (string \<rightharpoonup> int)" where
  "parseLoop s atoms =
     (case exec s of
        None \<Rightarrow> atoms
      | Some (symb, num, rest) \<Rightarrow> parseLoop rest (atoms(symb \<mapsto> orZero (parseInt num))))"
  by pat_completeness auto
termination
  by (relation "measure (\<lambda>(s, atoms). length s)") (auto dest: exec_shorter)

declare parseLoop.simps [simp del]

definition parseFormulaString :: "string \<Rightarrow> AtomicFormula" where
  "parseFormulaString formula =
     (let atoms = parseLoop formula Map.empty
      in \<lparr>carbon = orZero (atoms ''C''),
          hydrogen = orZero (atoms ''H''),
          nitrogen = orZero (atoms ''N''),
          oxygen = orZero (atoms ''O''),
          sulfur = orZero (atoms ''S''),
          phosphorus = orZero (atoms ''P''),
          chlorine = orZero (atoms ''Cl'')\<rparr>)"



definition zeroFormula :: AtomicFormula where
  \<comment> \<open>\<open>new AtomicFormula()\<close>: every parameter takes its default\<close>
  "zeroFormula =
     \<lparr>carbon = 0, hydrogen = 0, nitrogen = 0, oxygen = 0, sulfur = 0, phosphorus = 0,
      chlorine = 0\<rparr>"

section \<open>The component \<open>MolecularMatcher\<close>\<close>

subsection \<open>String helpers of the host language\<close>

definition trim :: "string \<Rightarrow> string" where
  \<comment> \<open>\<open>String.prototype.trim\<close>\<close>
  "trim s = rev (dropWhile isWhiteSpace (rev (dropWhile isWhiteSpace s)))"

fun joinWith :: "string \<Rightarrow> string list \<Rightarrow> string" where
  \<comment> \<open>\<open>xs.join(sep)\<close>\<close>
  "joinWith sep [] = []"
| "joinWith sep [x] = x"
| "joinWith sep (x # y # ys) = x @ sep @ joinWith sep (y # ys)"

fun splitOn :: "char \<Rightarrow> string \<Rightarrow> string list" where
  \<comment> \<open>\<open>text.split(c)\<close> for a one-character separator\<close>
  "splitOn c [] = [[]]"
| "splitOn c (x # xs) =
     (if x = c then [] # splitOn c xs
      else (case splitOn c xs of [] \<Rightarrow> [[x]] | l # ls \<Rightarrow> (x # l) # ls))"

definition slice :: "nat \<Rightarrow> nat \<Rightarrow> 'a list \<Rightarrow> 'a list" where
  \<comment> \<open>\<open>xs.slice(start, end)\<close> for non-negative indices\<close>
  "slice start end' xs = take (end' - start) (drop start xs)"

subsection \<open>Data held by the component\<close>

record FormulaEntry =
  id' :: string
  originalFormula :: AtomicFormula

record Correction =
  formula :: AtomicFormula

record Match =
  originalEntry :: FormulaEntry
  matchedEntry :: FormulaEntry
  appliedCorrection :: AtomicFormula

text \<open>
  The \<open>useState\<close> cells that the modelled handlers read or write; \<open>error = None\<close>
  is \<open>null\<close>, \<open>processProgress\<close> is the pair \<open>(current, total)\<close>.
\<close>

record State =
  formulas :: "FormulaEntry list"
  corrections :: "Correction list"
  results :: "Match list"
  error :: "string option"
  isLoading :: bool
  processProgress :: "nat \<times> nat"
  isProcessing :: bool

subsection \<open>\<open>validateCSVStructure\<close> and \<open>handleFormulaFile\<close>\<close>

record ValidationResult =
  isValid :: bool
  message :: "string option"

definition requiredColumns :: "string list" where
  "requiredColumns = [''ID'', ''formulas'']"

definition validateCSVStructure :: "string list \<Rightarrow> ValidationResult" where
  "validateCSVStructure headers =
     (let missingColumns =
            filter (\<lambda>col. \<not> list_ex (\<lambda>header. trim header = col) headers) requiredColumns
      in if length missingColumns > 0 then
           \<lparr>isValid = False,
            message = Some (''Missing required column(s): '' @ joinWith '', '' missingColumns)\<rparr>
         else \<lparr>isValid = True, message = None\<rparr>)"

definition truthy :: "string option \<Rightarrow> bool" where
  \<comment> \<open>a field of a parsed row in a condition: \<open>undefined\<close> and the empty string are falsy\<close>
  "truthy v = (case v of None \<Rightarrow> False | Some s \<Rightarrow> s \<noteq> [])"

text \<open>
  The \<open>complete\<close> callback of \<open>handleFormulaFile\<close>, after the two state writes that
  precede the parse. \<open>metaFields\<close> is \<open>results.meta.fields\<close>, \<open>rows\<close> is \<open>results.data\<close>;
  a row maps a header to its text. Nothing inside the \<open>try\<close> block can throw on such
  rows, since the filter leaves only rows whose \<open>ID\<close> is a non-empty string.
\<close>

definition handleFormulaFile :: "string list \<Rightarrow> (string \<rightharpoonup> string) list \<Rightarrow> State \<Rightarrow> State" where
  "handleFormulaFile metaFields rows st0 =
     (let st = st0\<lparr>error := None, isLoading := True\<rparr>;
          validationResult = validateCSVStructure metaFields
      in if \<not> isValid validationResult then
           st\<lparr>error := message validationResult, formulas := [], isLoading := False\<rparr>
         else
           (let parsedFormulas =
                  map (\<lambda>row. \<lparr>id' = the (row ''ID''),
                               originalFormula =
                                 parseFormulaString
                                   (let t = trim (the (row ''formulas'')) in if t = [] then [] else t)\<rparr>)
                    (filter (\<lambda>row. truthy (row ''ID'') \<and> truthy (row ''formulas'')) rows)
            in if length parsedFormulas = 0 then
                 st\<lparr>error := Some ''No valid formulas found in the CSV file'', isLoading := False\<rparr>
               else st\<lparr>formulas := parsedFormulas, isLoading := False\<rparr>))"

subsection \<open>\<open>handleCorrectionFile\<close>\<close>

text \<open>
  The handler once the text of the file has been read; \<open>fileText\<close> is that text.
  Splitting, trimming and parsing raise nothing, so the \<open>catch\<close> branch is left
  to a failed read, which is not part of the model.
\<close>

definition handleCorrectionFile :: "string \<Rightarrow> State \<Rightarrow> State" where
  "handleCorrectionFile fileText st0 =
     (let st = st0\<lparr>error := None, isLoading := True\<rparr>;
          correctionFormulas =
            map (\<lambda>line. \<lparr>formula = parseFormulaString line\<rparr>)
              (filter (\<lambda>line. length line > 0) (map trim (splitOn (CHR 0x0A) fileText)))
      in st\<lparr>corrections := correctionFormulas, isLoading := False\<rparr>)"

subsection \<open>\<open>applyCorrections\<close>\<close>

definition formulasByFormula :: "FormulaEntry list \<Rightarrow> (string \<rightharpoonup> FormulaEntry)" where
  \<comment> \<open>the lookup \<open>Map\<close>, filled by \<open>forEach\<close> in input order\<close>
  "formulasByFormula fs =
     foldl (\<lambda>m c. m(toFormulaString (originalFormula c) \<mapsto> c)) Map.empty fs"

definition correctionStep ::
  "(string \<rightharpoonup> FormulaEntry) \<Rightarrow> FormulaEntry \<Rightarrow> Match list \<Rightarrow> Correction \<Rightarrow> Match list" where
  \<comment> \<open>the body of \<open>corrections.forEach\<close>\<close>
  "correctionStep idx entry newResults correction =
     (let correctedFormula = add (originalFormula entry) (formula correction);
          correctedFormulaString = toFormulaString correctedFormula
      in case idx correctedFormulaString of
           None \<Rightarrow> newResults
         | Some matchedFormula \<Rightarrow>
             if id' matchedFormula \<noteq> id' entry then
               newResults @
                 [\<lparr>originalEntry = entry, matchedEntry = matchedFormula,
                   appliedCorrection = formula correction\<rparr>]
             else newResults)"

definition formulaStep ::
  "(string \<rightharpoonup> FormulaEntry) \<Rightarrow> Correction list \<Rightarrow> Match list \<Rightarrow> FormulaEntry \<Rightarrow> Match list" where
  \<comment> \<open>the body of \<open>batchFormulas.forEach\<close>\<close>
  "formulaStep idx cs newResults entry = foldl (correctionStep idx entry) newResults cs"

text \<open>
  The \<open>for\<close> loop over batches. The source fixes \<open>batchSize = 100\<close>; the size is a
  parameter here, and a size of zero makes the loop run forever, which is the value
  \<open>None\<close>.
\<close>

partial_function (option) batchLoop ::
  "nat \<Rightarrow> (string \<rightharpoonup> FormulaEntry) \<Rightarrow> Correction list \<Rightarrow> FormulaEntry list \<Rightarrow> nat \<Rightarrow> Match list
     \<Rightarrow> Match list option" where
  "batchLoop batchSize idx cs fs i newResults =
     (if i < length fs then
        (let batchFormulas = slice i (min (i + batchSize) (length fs)) fs
         in batchLoop batchSize idx cs fs (i + batchSize)
              (foldl (formulaStep idx cs) newResults batchFormulas))
      else Some newResults)"

declare batchLoop.simps [code]

definition matchingLoop :: "FormulaEntry list \<Rightarrow> Correction list \<Rightarrow> Match list option" where
  \<comment> \<open>the body of the \<open>try\<close> block up to \<open>newResults\<close>\<close>
  "matchingLoop fs cs = batchLoop 100 (formulasByFormula fs) cs fs 0 []"

text \<open>
  \<open>applyCorrections\<close> together with its deferred callback, which runs once the handler
  has returned. \<open>None\<close> stands for a callback that does not return. The body of the
  \<open>try\<close> block raises nothing on a state of this type, so the \<open>catch\<close> branch is
  no branch of the model; the \<open>finally\<close> block is the last two writes.
\<close>

definition applyCorrections :: "State \<Rightarrow> State option" where
  "applyCorrections st =
     (if length (formulas st) = 0 \<or> length (corrections st) = 0 then
        Some (st\<lparr>error := Some ''No formulas or corrections loaded''\<rparr>)
      else
        (case matchingLoop (formulas st) (corrections st) of
           None \<Rightarrow> None
         | Some newResults \<Rightarrow>
             Some (st\<lparr>results := newResults,
                      processProgress := (length (formulas st), length (formulas st)),
                      isLoading := False, isProcessing := False\<rparr>)))"

text \<open>
  The matching algorithm in the words of the specification: every entry in input order,
  every correction in input order, one match when the corrected formula is indexed under
  an entry with another id.
\<close>

definition specEmit :: "(string \<rightharpoonup> FormulaEntry) \<Rightarrow> FormulaEntry \<Rightarrow> Correction \<Rightarrow> Match list" where
  "specEmit idx e c =
     (case idx (toFormulaString (add (originalFormula e) (formula c))) of
        None \<Rightarrow> []
      | Some m \<Rightarrow>
          if id' m \<noteq> id' e then
            [\<lparr>originalEntry = e, matchedEntry = m, appliedCorrection = formula c\<rparr>]
          else [])"

definition specMatch :: "FormulaEntry list \<Rightarrow> Correction list \<Rightarrow> Match list" where
  "specMatch entries cs =
     concat (map (\<lambda>e. concat (map (specEmit (formulasByFormula entries) e) cs)) entries)"

subsection \<open>\<open>exportToCSV\<close>: the rows handed to the CSV writer\<close>

record ExportRow =
  ID :: string
  OriginalFormula :: string
  NumberOfMatches :: nat
  Matches :: string

definition describeMatch :: "Match \<Rightarrow> string" where
  \<comment> \<open>the template literal of the export\<close>
  "describeMatch m =
     ''correction = '' @ toFormulaString (appliedCorrection m) @
     '' result = (ID '' @ id' (matchedEntry m) @ '') '' @
     toFormulaString (originalFormula (matchedEntry m))"

text \<open>\<open>sortedFormulas\<close> is the memoised list of the component, taken as it is.\<close>

definition exportData :: "FormulaEntry list \<Rightarrow> Match list \<Rightarrow> ExportRow list" where
  "exportData sortedFormulas rs =
     map (\<lambda>entry.
            (let matchesForFormula = filter (\<lambda>r. id' (originalEntry r) = id' entry) rs
             in \<lparr>ID = id' entry,
                 OriginalFormula = toFormulaString (originalFormula entry),
                 NumberOfMatches = length matchesForFormula,
                 Matches =
                   (if length matchesForFormula > 0 then
                      ''['' @ joinWith '', '' (map describeMatch matchesForFormula) @ '']''
                    else [])\<rparr>))
       sortedFormulas"

text \<open>
  The description of one match in the words of the specification:
  \<open>correction=<delta> result=(ID <matchedId>) <matchedFormula>\<close>.
\<close>

definition specDescribeMatch :: "Match \<Rightarrow> string" where
  "specDescribeMatch m =
     ''correction='' @ toFormulaString (appliedCorrection m) @
     '' result=(ID '' @ id' (matchedEntry m) @ '') '' @
     toFormulaString (originalFormula (matchedEntry m))"

definition specMatchDescriptions :: "Match list \<Rightarrow> FormulaEntry \<Rightarrow> string list" where
  "specMatchDescriptions rs e =
     map specDescribeMatch (filter (\<lambda>r. id' (originalEntry r) = id' e) rs)"

section \<open>Auxiliary facts\<close>

lemma isDigit_digitChar: "d < 10 \<Longrightarrow> isDigit (digitChar d)"
  by (simp add: isDigit_def digitChar_def)

lemma digitVal_digitChar: "d < 10 \<Longrightarrow> digitVal (digitChar d) = d"
  by (simp add: digitVal_def digitChar_def)

lemma digitsOf_nonempty: "digitsOf n \<noteq> []"
  by (subst digitsOf.simps) simp

lemma digitsOf_digits: "c \<in> set (digitsOf n) \<Longrightarrow> isDigit c"
proof (induction n arbitrary: c rule: digitsOf.induct)
  case (1 n)
  show ?case
  proof (cases "n < 10")
    case True
    with "1.prems" show ?thesis
      by (subst (asm) digitsOf.simps) (simp add: isDigit_digitChar)
  next
    case False
    with "1.prems" have "c \<in> set (digitsOf (n div 10)) \<or> c = digitChar (n mod 10)"
      by (subst (asm) digitsOf.simps) auto
    with False "1.IH" show ?thesis
      by (auto simp: isDigit_digitChar)
  qed
qed

lemma valueOfDigits_snoc:
  "valueOfDigits r (ds @ [c]) = r * valueOfDigits r ds + digitVal c"
  by (simp add: valueOfDigits_def)

lemma valueOfDigits_digitsOf: "valueOfDigits 10 (digitsOf n) = n"
proof (induction n rule: digitsOf.induct)
  case (1 n)
  show ?case
  proof (cases "n < 10")
    case True
    then show ?thesis
      by (subst digitsOf.simps) (simp add: valueOfDigits_def digitVal_digitChar)
  next
    case False
    with "1.IH" have "valueOfDigits 10 (digitsOf (n div 10)) = n div 10" by simp
    with False show ?thesis
      by (subst digitsOf.simps) (simp add: valueOfDigits_snoc digitVal_digitChar)
  qed
qed





















lemma split_unique:
  assumes "\<And>c. c \<in> set xs \<Longrightarrow> P c" and "\<And>c. c \<in> set ys \<Longrightarrow> P c" and "\<not> P u" and "\<not> P v"
    and "xs @ u # r = ys @ v # t"
  shows "xs = ys \<and> u = v \<and> r = t"
proof -
  have a: "takeWhile P (xs @ u # r) = xs" "dropWhile P (xs @ u # r) = u # r"
    using assms(1,3) by (simp_all add: takeWhile_append2 dropWhile_append2)
  have b: "takeWhile P (ys @ v # t) = ys" "dropWhile P (ys @ v # t) = v # t"
    using assms(2,4) by (simp_all add: takeWhile_append2 dropWhile_append2)
  from a b assms(5) show ?thesis by simp
qed

lemma digitsOf_inj: "digitsOf a = digitsOf b \<Longrightarrow> a = b"
  by (metis valueOfDigits_digitsOf)

lemma takeWhile_replicate:
  "takeWhile (\<lambda>c. c = x) xs = replicate (length (takeWhile (\<lambda>c. c = x) xs)) x"
  by (induction xs) simp_all

lemma stripTrailingZeros_decomp:
  "ds = stripTrailingZeros ds @
     replicate (length ds - length (stripTrailingZeros ds)) (CHR ''0'')"
proof -
  let ?P = "\<lambda>c. c = CHR ''0''"
  have "rev ds = takeWhile ?P (rev ds) @ dropWhile ?P (rev ds)" by simp
  then have "ds = rev (dropWhile ?P (rev ds)) @ rev (takeWhile ?P (rev ds))"
    by (metis rev_append rev_rev_ident)
  moreover have "rev (takeWhile ?P (rev ds)) =
      replicate (length (takeWhile ?P (rev ds))) (CHR ''0'')"
    by (subst takeWhile_replicate) simp
  moreover have "length (takeWhile ?P (rev ds)) =
      length ds - length (stripTrailingZeros ds)"
  proof -
    have "length (rev ds) = length (takeWhile ?P (rev ds)) + length (dropWhile ?P (rev ds))"
      by (metis append_take_drop_id length_append takeWhile_dropWhile_id)
    then show ?thesis by (simp add: stripTrailingZeros_def)
  qed
  ultimately show ?thesis by (simp add: stripTrailingZeros_def)
qed

lemma stripTrailingZeros_digits:
  "c \<in> set (stripTrailingZeros (digitsOf m)) \<Longrightarrow> isDigit c"
  unfolding stripTrailingZeros_def
  by (metis digitsOf_digits set_dropWhileD set_rev)

lemma mantissa_chars: "c \<in> set (mantissa s) \<Longrightarrow> c \<in> set s \<or> c = CHR ''.''"
  by (auto simp: mantissa_def split: list.splits if_splits)

lemma mantissa_filter:
  "CHR ''.'' \<notin> set s \<Longrightarrow> filter (\<lambda>c. c \<noteq> CHR ''.'') (mantissa s) = s"
  by (cases s) (auto simp: mantissa_def filter_id_conv)

lemma digit_facts:
  assumes "isDigit c"
  shows "c \<noteq> CHR ''.''" "c \<noteq> CHR ''e''" "c \<noteq> CHR ''-''" "c \<noteq> CHR ''+''" "\<not> isUpper c"
  using assms by (auto simp: isDigit_def isUpper_def Let_def)

lemma exponentForm_inj:
  assumes "exponentForm (digitsOf a) = exponentForm (digitsOf b)"
  shows "a = b"
proof -
  let ?sa = "stripTrailingZeros (digitsOf a)" and ?sb = "stripTrailingZeros (digitsOf b)"
  have na: "\<And>c. c \<in> set (mantissa ?sa) \<Longrightarrow> c \<noteq> CHR ''e''"
    using mantissa_chars stripTrailingZeros_digits digit_facts(2) by fastforce
  have nb: "\<And>c. c \<in> set (mantissa ?sb) \<Longrightarrow> c \<noteq> CHR ''e''"
    using mantissa_chars stripTrailingZeros_digits digit_facts(2) by fastforce
  from assms have "mantissa ?sa @ CHR ''e'' # (CHR ''+'' # digitsOf (length (digitsOf a) - 1)) =
      mantissa ?sb @ CHR ''e'' # (CHR ''+'' # digitsOf (length (digitsOf b) - 1))"
    by (simp add: exponentForm_def)
  from split_unique [of "mantissa ?sa" "\<lambda>c. c \<noteq> CHR ''e''" "mantissa ?sb", OF na nb _ _ this]
  have m: "mantissa ?sa = mantissa ?sb"
    and e: "digitsOf (length (digitsOf a) - 1) = digitsOf (length (digitsOf b) - 1)"
    by simp_all
  have da: "CHR ''.'' \<notin> set ?sa" and db: "CHR ''.'' \<notin> set ?sb"
    using stripTrailingZeros_digits digit_facts(1) by blast+
  have "?sa = filter (\<lambda>c. c \<noteq> CHR ''.'') (mantissa ?sa)"
    by (rule mantissa_filter [OF da, symmetric])
  also have "\<dots> = filter (\<lambda>c. c \<noteq> CHR ''.'') (mantissa ?sb)"
    by (simp only: m)
  also have "\<dots> = ?sb"
    by (rule mantissa_filter [OF db])
  finally have s: "?sa = ?sb" .
  from e have "length (digitsOf a) - 1 = length (digitsOf b) - 1" by (rule digitsOf_inj)
  moreover have "length (digitsOf a) \<noteq> 0" "length (digitsOf b) \<noteq> 0"
    by (simp_all add: digitsOf_nonempty)
  ultimately have l: "length (digitsOf a) = length (digitsOf b)" by arith
  have "digitsOf a = digitsOf b"
    using stripTrailingZeros_decomp [of "digitsOf a"] stripTrailingZeros_decomp [of "digitsOf b"]
    by (simp only: s l)
  then show ?thesis by (rule digitsOf_inj)
qed

lemma exponentForm_has_e: "CHR ''e'' \<in> set (exponentForm ds)"
  by (simp add: exponentForm_def)

lemma magnitudeToString_inj:
  assumes "magnitudeToString a = magnitudeToString b"
  shows "a = b"
proof -
  have ne: "\<And>m ds. digitsOf m \<noteq> exponentForm ds"
    using exponentForm_has_e digitsOf_digits digit_facts(2) by metis
  show ?thesis
  proof (cases "a < 10 ^ 21")
    case True
    note A = this
    show ?thesis
    proof (cases "b < 10 ^ 21")
      case True
      with A assms show ?thesis by (simp add: magnitudeToString_def digitsOf_inj)
    next
      case False
      with A assms ne show ?thesis by (simp add: magnitudeToString_def)
    qed
  next
    case False
    note A = this
    show ?thesis
    proof (cases "b < 10 ^ 21")
      case True
      with A assms ne [of b "digitsOf a"] show ?thesis by (simp add: magnitudeToString_def)
    next
      case False
      with A assms show ?thesis by (simp add: magnitudeToString_def exponentForm_inj)
    qed
  qed
qed

lemma magnitudeToString_chars:
  assumes "c \<in> set (magnitudeToString m)"
  shows "isDigit c \<or> c = CHR ''.'' \<or> c = CHR ''e'' \<or> c = CHR ''+''"
proof (cases "m < 10 ^ 21")
  case True
  with assms show ?thesis by (simp add: magnitudeToString_def digitsOf_digits)
next
  case False
  with assms have "c \<in> set (mantissa (stripTrailingZeros (digitsOf m))) \<or> c = CHR ''e''
      \<or> c = CHR ''+'' \<or> c \<in> set (digitsOf (length (digitsOf m) - 1))"
    by (auto simp: magnitudeToString_def exponentForm_def)
  then show ?thesis
    using mantissa_chars stripTrailingZeros_digits digitsOf_digits by blast
qed

lemma numberToString_inj:
  assumes "numberToString a = numberToString b"
  shows "a = b"
proof -
  have nm: "\<And>m. CHR ''-'' \<notin> set (magnitudeToString m)"
    using magnitudeToString_chars digit_facts(3) by fastforce
  have nc: "\<And>m k. CHR ''-'' # magnitudeToString m \<noteq> magnitudeToString k"
    using nm by (metis list.set_intros(1))
  show ?thesis
  proof (cases "a < 0")
    case True
    note A = this
    show ?thesis
    proof (cases "b < 0")
      case True
      with A assms have "nat (- a) = nat (- b)"
        by (simp add: numberToString_def magnitudeToString_inj)
      with A True show ?thesis by simp
    next
      case False
      with A assms nc show ?thesis by (simp add: numberToString_def)
    qed
  next
    case False
    note A = this
    show ?thesis
    proof (cases "b < 0")
      case True
      with A assms nc [of "nat (- b)" "nat a"] show ?thesis by (simp add: numberToString_def)
    next
      case False
      with A assms have "nat a = nat b"
        by (simp add: numberToString_def magnitudeToString_inj)
      with A False show ?thesis by simp
    qed
  qed
qed

lemma numberToString_no_upper: "c \<in> set (numberToString n) \<Longrightarrow> \<not> isUpper c"
proof -
  assume "c \<in> set (numberToString n)"
  then have "c = CHR ''-'' \<or> (\<exists>m. c \<in> set (magnitudeToString m))"
    by (auto simp: numberToString_def split: if_splits)
  then have "c = CHR ''-'' \<or> isDigit c \<or> c = CHR ''.'' \<or> c = CHR ''e'' \<or> c = CHR ''+''"
    using magnitudeToString_chars by blast
  then show ?thesis by (auto simp: isUpper_def isDigit_def Let_def)
qed

lemma number_segment:
  assumes "isUpper u" and "numberToString a @ u # r = numberToString b @ u # t"
  shows "a = b \<and> r = t"
proof -
  from split_unique [of "numberToString a" "\<lambda>c. \<not> isUpper c" "numberToString b" u u r t]
    numberToString_no_upper assms
  have "numberToString a = numberToString b \<and> r = t" by blast
  then show ?thesis using numberToString_inj by blast
qed

lemma toFormulaString_inj:
  assumes "toFormulaString f = toFormulaString g"
  shows "f = g"
proof -
  have up: "isUpper CHR ''C''" "isUpper CHR ''H''" "isUpper CHR ''N''" "isUpper CHR ''O''"
    "isUpper CHR ''P''" "isUpper CHR ''S''"
    by (simp_all add: isUpper_def)
  from assms have 1: "numberToString (carbon f) @ CHR ''H'' # (numberToString (hydrogen f) @
        CHR ''C'' # (CHR ''l'' # numberToString (chlorine f) @ CHR ''N'' # (numberToString (nitrogen f) @
        CHR ''O'' # (numberToString (oxygen f) @ CHR ''P'' # (numberToString (phosphorus f) @
        CHR ''S'' # numberToString (sulfur f)))))) =
      numberToString (carbon g) @ CHR ''H'' # (numberToString (hydrogen g) @
        CHR ''C'' # (CHR ''l'' # numberToString (chlorine g) @ CHR ''N'' # (numberToString (nitrogen g) @
        CHR ''O'' # (numberToString (oxygen g) @ CHR ''P'' # (numberToString (phosphorus g) @
        CHR ''S'' # numberToString (sulfur g))))))"
    by (simp add: toFormulaString_def)
  from number_segment [OF up(2) 1] have c: "carbon f = carbon g"
    and 2: "numberToString (hydrogen f) @
        CHR ''C'' # (CHR ''l'' # numberToString (chlorine f) @ CHR ''N'' # (numberToString (nitrogen f) @
        CHR ''O'' # (numberToString (oxygen f) @ CHR ''P'' # (numberToString (phosphorus f) @
        CHR ''S'' # numberToString (sulfur f))))) =
      numberToString (hydrogen g) @
        CHR ''C'' # (CHR ''l'' # numberToString (chlorine g) @ CHR ''N'' # (numberToString (nitrogen g) @
        CHR ''O'' # (numberToString (oxygen g) @ CHR ''P'' # (numberToString (phosphorus g) @
        CHR ''S'' # numberToString (sulfur g)))))"
    by simp_all
  from number_segment [OF up(1) 2] have h: "hydrogen f = hydrogen g"
    and 3: "numberToString (chlorine f) @ CHR ''N'' # (numberToString (nitrogen f) @
        CHR ''O'' # (numberToString (oxygen f) @ CHR ''P'' # (numberToString (phosphorus f) @
        CHR ''S'' # numberToString (sulfur f)))) =
      numberToString (chlorine g) @ CHR ''N'' # (numberToString (nitrogen g) @
        CHR ''O'' # (numberToString (oxygen g) @ CHR ''P'' # (numberToString (phosphorus g) @
        CHR ''S'' # numberToString (sulfur g))))"
    by simp_all
  from number_segment [OF up(3) 3] have cl: "chlorine f = chlorine g"
    and 4: "numberToString (nitrogen f) @
        CHR ''O'' # (numberToString (oxygen f) @ CHR ''P'' # (numberToString (phosphorus f) @
        CHR ''S'' # numberToString (sulfur f))) =
      numberToString (nitrogen g) @
        CHR ''O'' # (numberToString (oxygen g) @ CHR ''P'' # (numberToString (phosphorus g) @
        CHR ''S'' # numberToString (sulfur g)))"
    by simp_all
  from number_segment [OF up(4) 4] have n: "nitrogen f = nitrogen g"
    and 5: "numberToString (oxygen f) @ CHR ''P'' # (numberToString (phosphorus f) @
        CHR ''S'' # numberToString (sulfur f)) =
      numberToString (oxygen g) @ CHR ''P'' # (numberToString (phosphorus g) @
        CHR ''S'' # numberToString (sulfur g))"
    by simp_all
  from number_segment [OF up(5) 5] have o: "oxygen f = oxygen g"
    and 6: "numberToString (phosphorus f) @ CHR ''S'' # numberToString (sulfur f) =
      numberToString (phosphorus g) @ CHR ''S'' # numberToString (sulfur g)"
    by simp_all
  from number_segment [OF up(6) 6] have p: "phosphorus f = phosphorus g"
    and "numberToString (sulfur f) = numberToString (sulfur g)"
    by simp_all
  then have s: "sulfur f = sulfur g" using numberToString_inj by blast
  from c h cl n o p s show ?thesis by simp
qed

lemma correctionStep_specEmit:
  "correctionStep idx e acc c = acc @ specEmit idx e c"
  by (simp add: correctionStep_def specEmit_def Let_def split: option.splits)

lemma formulaStep_concat:
  "formulaStep idx cs acc e = acc @ concat (map (specEmit idx e) cs)"
  unfolding formulaStep_def
  by (induction cs arbitrary: acc) (simp_all add: correctionStep_specEmit)

lemma foldl_formulaStep:
  "foldl (formulaStep idx cs) acc es =
     acc @ concat (map (\<lambda>e. concat (map (specEmit idx e) cs)) es)"
  by (induction es arbitrary: acc) (simp_all add: formulaStep_concat)

lemma slice_batch:
  "i < length fs \<Longrightarrow> slice i (min (i + b) (length fs)) fs = take b (drop i fs)"
  by (simp add: slice_def min_def)

lemma batchLoop_foldl:
  "0 < b \<Longrightarrow> batchLoop b idx cs fs i acc = Some (foldl (formulaStep idx cs) acc (drop i fs))"
proof (induction "length fs - i" arbitrary: i acc rule: less_induct)
  case less
  show ?case
  proof (cases "i < length fs")
    case False
    then show ?thesis by (subst batchLoop.simps) simp
  next
    case True
    with less.prems have d: "length fs - (i + b) < length fs - i" by arith
    have sp: "drop i fs = take b (drop i fs) @ drop (i + b) fs"
      by (metis add.commute append_take_drop_id drop_drop)
    have "batchLoop b idx cs fs i acc =
            batchLoop b idx cs fs (i + b) (foldl (formulaStep idx cs) acc (take b (drop i fs)))"
      using True by (subst batchLoop.simps) (simp add: slice_batch)
    also have "\<dots> = Some (foldl (formulaStep idx cs)
                           (foldl (formulaStep idx cs) acc (take b (drop i fs))) (drop (i + b) fs))"
      using less.hyps [OF d less.prems] .
    also have "\<dots> = Some (foldl (formulaStep idx cs) acc (drop i fs))"
      by (subst (2) sp) (simp only: foldl_append)
    finally show ?thesis .
  qed
qed

lemma batchLoop_specMatch:
  "0 < b \<Longrightarrow> batchLoop b (formulasByFormula fs) cs fs 0 [] = Some (specMatch fs cs)"
  by (simp add: batchLoop_foldl foldl_formulaStep specMatch_def)

lemma formulasByFormula_snoc:
  "formulasByFormula (fs @ [e]) = (formulasByFormula fs)(toFormulaString (originalFormula e) \<mapsto> e)"
  by (simp add: formulasByFormula_def)

lemma formulasByFormula_Nil: "formulasByFormula [] = Map.empty"
  by (simp add: formulasByFormula_def)

lemma formulasByFormula_last:
  "formulasByFormula fs k =
     (case filter (\<lambda>e. toFormulaString (originalFormula e) = k) fs of
        [] \<Rightarrow> None
      | x # xs \<Rightarrow> Some (last (x # xs)))"
proof (induction fs rule: rev_induct)
  case Nil
  then show ?case by (simp add: formulasByFormula_Nil)
next
  case (snoc e fs)
  then show ?case
    by (auto simp: formulasByFormula_snoc split: list.splits)
qed

lemma formulasByFormula_Some:
  assumes "formulasByFormula fs k = Some m"
  shows "m \<in> set fs \<and> toFormulaString (originalFormula m) = k"
proof -
  let ?xs = "filter (\<lambda>e. toFormulaString (originalFormula e) = k) fs"
  from assms have ne: "?xs \<noteq> []" and m: "m = last ?xs"
    by (auto simp: formulasByFormula_last split: list.splits)
  then have "m \<in> set ?xs" using last_in_set by blast
  then show ?thesis by simp
qed

lemma specEmit_sound:
  assumes "m \<in> set (specEmit (formulasByFormula fs) e c)"
  shows "originalEntry m = e \<and> appliedCorrection m = formula c \<and> matchedEntry m \<in> set fs
    \<and> toFormulaString (add (originalFormula e) (formula c)) =
        toFormulaString (originalFormula (matchedEntry m))
    \<and> id' (matchedEntry m) \<noteq> id' e"
  using assms formulasByFormula_Some [of fs]
  by (auto simp: specEmit_def split: option.splits if_splits)

lemma specMatch_sound:
  assumes "m \<in> set (specMatch fs cs)"
  shows "originalEntry m \<in> set fs \<and> matchedEntry m \<in> set fs \<and> appliedCorrection m \<in> formula ` set cs
    \<and> toFormulaString (add (originalFormula (originalEntry m)) (appliedCorrection m)) =
        toFormulaString (originalFormula (matchedEntry m))
    \<and> id' (originalEntry m) \<noteq> id' (matchedEntry m)"
proof -
  from assms obtain e c where ec: "e \<in> set fs" "c \<in> set cs"
    "m \<in> set (specEmit (formulasByFormula fs) e c)"
    by (auto simp: specMatch_def)
  from specEmit_sound [OF ec(3)] ec(1,2) show ?thesis by auto
qed

lemma exec_no_upper: "(\<And>c. c \<in> set s \<Longrightarrow> \<not> isUpper c) \<Longrightarrow> exec s = None"
  by (induction s) simp_all

lemma parseLoop_no_upper:
  "(\<And>c. c \<in> set s \<Longrightarrow> \<not> isUpper c) \<Longrightarrow> parseLoop s atoms = atoms"
  by (subst parseLoop.simps) (simp add: exec_no_upper)

lemma parseInt_Nil: "parseInt [] = None"
  by (simp add: parseInt_def)

lemma plus_digits_no_upper:
  assumes "\<forall>c\<in>set ds. isDigit c" and "c \<in> set (CHR ''+'' # ds)"
  shows "\<not> isUpper c"
  using assms by (auto simp: isDigit_def isUpper_def Let_def)

lemma parseLoop_plus1:
  assumes "isUpper u" and "\<forall>c\<in>set ds. isDigit c"
  shows "parseLoop (u # CHR ''+'' # ds) Map.empty = [[u] \<mapsto> 0]"
proof -
  have nl: "\<not> isLower CHR ''+''" by (simp add: isLower_def)
  have nd: "\<not> isDigit CHR ''+''" by (simp add: isDigit_def)
  have "exec (u # CHR ''+'' # ds) = Some ([u], [], CHR ''+'' # ds)"
    using assms(1) nl nd by simp
  then have "parseLoop (u # CHR ''+'' # ds) Map.empty = parseLoop (CHR ''+'' # ds) [[u] \<mapsto> 0]"
    by (subst parseLoop.simps) (simp add: parseInt_Nil orZero_def)
  also have "\<dots> = [[u] \<mapsto> 0]"
    by (rule parseLoop_no_upper) (rule plus_digits_no_upper [OF assms(2)])
  finally show ?thesis .
qed

lemma parseLoop_plus2:
  assumes "isUpper u" and "isLower l" and "\<forall>c\<in>set ds. isDigit c"
  shows "parseLoop (u # l # CHR ''+'' # ds) Map.empty = [[u, l] \<mapsto> 0]"
proof -
  have nd: "\<not> isDigit CHR ''+''" by (simp add: isDigit_def)
  have "exec (u # l # CHR ''+'' # ds) = Some ([u, l], [], CHR ''+'' # ds)"
    using assms(1,2) nd by simp
  then have "parseLoop (u # l # CHR ''+'' # ds) Map.empty = parseLoop (CHR ''+'' # ds) [[u, l] \<mapsto> 0]"
    by (subst parseLoop.simps) (simp add: parseInt_Nil orZero_def)
  also have "\<dots> = [[u, l] \<mapsto> 0]"
    by (rule parseLoop_no_upper) (rule plus_digits_no_upper [OF assms(3)])
  finally show ?thesis .
qed

lemma missing_formulas_columns:
  assumes "''formulas'' \<notin> trim ` set headers"
  shows "filter (\<lambda>col. \<not> list_ex (\<lambda>header. trim header = col) headers) requiredColumns =
     (if ''ID'' \<in> trim ` set headers then [''formulas''] else [''ID'', ''formulas''])"
proof -
  have a: "\<And>col. list_ex (\<lambda>header. trim header = col) headers = (col \<in> trim ` set headers)"
    by (auto simp: list_ex_iff)
  show ?thesis using assms by (simp add: requiredColumns_def a)
qed

lemma exportData_nth:
  "i < length sortedFormulas \<Longrightarrow>
   exportData sortedFormulas rs ! i =
     (let matchesForFormula = filter (\<lambda>r. id' (originalEntry r) = id' (sortedFormulas ! i)) rs
      in \<lparr>ID = id' (sortedFormulas ! i),
          OriginalFormula = toFormulaString (originalFormula (sortedFormulas ! i)),
          NumberOfMatches = length matchesForFormula,
          Matches =
            (if length matchesForFormula > 0 then
               ''['' @ joinWith '', '' (map describeMatch matchesForFormula) @ '']''
             else [])\<rparr>)"
  by (simp add: exportData_def)

section \<open>The properties of the specification\<close>

text \<open>
  Claim C1. For every list of entries and every list of corrections the matching loop
  returns, and every match it has emitted satisfies the definition of a match: the
  original formula plus the applied correction has the canonical string of the matched
  formula (hence is that formula), and the two entries have different ids. So no
  correction, an all-zero one included, ever matches an entry with an entry of the same id.
\<close>
theorem matchingLoop_emits_matches:
  "\<exists>rs. matchingLoop fs cs = Some rs \<and>
     (\<forall>m\<in>set rs.
        toFormulaString (add (originalFormula (originalEntry m)) (appliedCorrection m)) =
          toFormulaString (originalFormula (matchedEntry m))
        \<and> add (originalFormula (originalEntry m)) (appliedCorrection m) =
            originalFormula (matchedEntry m)
        \<and> id' (originalEntry m) \<noteq> id' (matchedEntry m))"
proof -
  have r: "matchingLoop fs cs = Some (specMatch fs cs)"
    by (simp add: matchingLoop_def batchLoop_specMatch)
  have "\<forall>m\<in>set (specMatch fs cs).
        toFormulaString (add (originalFormula (originalEntry m)) (appliedCorrection m)) =
          toFormulaString (originalFormula (matchedEntry m))
        \<and> add (originalFormula (originalEntry m)) (appliedCorrection m) =
            originalFormula (matchedEntry m)
        \<and> id' (originalEntry m) \<noteq> id' (matchedEntry m)"
    using specMatch_sound [of _ fs cs] toFormulaString_inj by blast
  with r show ?thesis by blast
qed

text \<open>The loop emits a match on a catalog with two entries of one formula.\<close>
theorem matchingLoop_emits_matches_witness:
  "matchingLoop
     [\<lparr>id' = ''1'', originalFormula = zeroFormula\<lparr>carbon := 1, hydrogen := 1\<rparr>\<rparr>,
      \<lparr>id' = ''2'', originalFormula = zeroFormula\<lparr>carbon := 1, hydrogen := 1\<rparr>\<rparr>]
     [\<lparr>formula = zeroFormula\<rparr>] =
   Some [\<lparr>originalEntry = \<lparr>id' = ''1'', originalFormula = zeroFormula\<lparr>carbon := 1, hydrogen := 1\<rparr>\<rparr>,
          matchedEntry = \<lparr>id' = ''2'', originalFormula = zeroFormula\<lparr>carbon := 1, hydrogen := 1\<rparr>\<rparr>,
          appliedCorrection = zeroFormula\<rparr>]
   \<and> add (zeroFormula\<lparr>carbon := 1, hydrogen := 1\<rparr>) zeroFormula = zeroFormula\<lparr>carbon := 1, hydrogen := 1\<rparr>
   \<and> ''1'' \<noteq> ''2''"
proof -
  let ?F = "[\<lparr>id' = ''1'', originalFormula = zeroFormula\<lparr>carbon := 1, hydrogen := 1\<rparr>\<rparr>,
      \<lparr>id' = ''2'', originalFormula = zeroFormula\<lparr>carbon := 1, hydrogen := 1\<rparr>\<rparr>]"
  let ?C = "[\<lparr>formula = zeroFormula\<rparr>]"
  let ?M = "\<lparr>originalEntry = \<lparr>id' = ''1'', originalFormula = zeroFormula\<lparr>carbon := 1, hydrogen := 1\<rparr>\<rparr>,
          matchedEntry = \<lparr>id' = ''2'', originalFormula = zeroFormula\<lparr>carbon := 1, hydrogen := 1\<rparr>\<rparr>,
          appliedCorrection = zeroFormula\<rparr>"
  have r: "matchingLoop ?F ?C = Some [?M]" by code_simp
  from matchingLoop_emits_matches [of ?F ?C] r
  have "add (originalFormula (originalEntry ?M)) (appliedCorrection ?M) =
            originalFormula (matchedEntry ?M)
        \<and> id' (originalEntry ?M) \<noteq> id' (matchedEntry ?M)"
    by simp
  with r show ?thesis by simp
qed

text \<open>
  Claim C2. The index is filled in input order and a later entry replaces an earlier one
  under the same canonical string: a lookup yields the last entry of the catalog with
  that string. On the catalog of ids 1 and 2, both \<open>C1H1\<close>, with the single correction
  \<open>C0H0\<close>, the loop yields exactly one match, from 1 to 2; the same holds when catalog
  and corrections pass through the two loaders and \<open>applyCorrections\<close>.
\<close>
theorem index_last_write_wins:
  "formulasByFormula (fs @ [e]) = (formulasByFormula fs)(toFormulaString (originalFormula e) \<mapsto> e)
   \<and> formulasByFormula fs k =
       (case filter (\<lambda>e. toFormulaString (originalFormula e) = k) fs of
          [] \<Rightarrow> None
        | x # xs \<Rightarrow> Some (last (x # xs)))
   \<and> matchingLoop
       [\<lparr>id' = ''1'', originalFormula = parseFormulaString ''C1H1''\<rparr>,
        \<lparr>id' = ''2'', originalFormula = parseFormulaString ''C1H1''\<rparr>]
       [\<lparr>formula = parseFormulaString ''C0H0''\<rparr>] =
     Some [\<lparr>originalEntry = \<lparr>id' = ''1'', originalFormula = parseFormulaString ''C1H1''\<rparr>,
            matchedEntry = \<lparr>id' = ''2'', originalFormula = parseFormulaString ''C1H1''\<rparr>,
            appliedCorrection = parseFormulaString ''C0H0''\<rparr>]
   \<and> map_option results
       (applyCorrections
         (handleCorrectionFile ''C0H0''
           (handleFormulaFile [''ID'', ''formulas'']
              [[''ID'' \<mapsto> ''1'', ''formulas'' \<mapsto> ''C1H1''], [''ID'' \<mapsto> ''2'', ''formulas'' \<mapsto> ''C1H1'']]
              st))) =
     Some [\<lparr>originalEntry = \<lparr>id' = ''1'', originalFormula = parseFormulaString ''C1H1''\<rparr>,
            matchedEntry = \<lparr>id' = ''2'', originalFormula = parseFormulaString ''C1H1''\<rparr>,
            appliedCorrection = parseFormulaString ''C0H0''\<rparr>]"
proof -
  have p1: "parseFormulaString ''C1H1'' = zeroFormula\<lparr>carbon := 1, hydrogen := 1\<rparr>" by code_simp
  have p0: "parseFormulaString ''C0H0'' = zeroFormula" by code_simp
  have m: "matchingLoop
       [\<lparr>id' = ''1'', originalFormula = zeroFormula\<lparr>carbon := 1, hydrogen := 1\<rparr>\<rparr>,
        \<lparr>id' = ''2'', originalFormula = zeroFormula\<lparr>carbon := 1, hydrogen := 1\<rparr>\<rparr>]
       [\<lparr>formula = zeroFormula\<rparr>] =
     Some [\<lparr>originalEntry = \<lparr>id' = ''1'', originalFormula = zeroFormula\<lparr>carbon := 1, hydrogen := 1\<rparr>\<rparr>,
            matchedEntry = \<lparr>id' = ''2'', originalFormula = zeroFormula\<lparr>carbon := 1, hydrogen := 1\<rparr>\<rparr>,
            appliedCorrection = zeroFormula\<rparr>]"
    by code_simp
  have v: "validateCSVStructure [''ID'', ''formulas''] = \<lparr>isValid = True, message = None\<rparr>"
    by code_simp
  have t: "trim ''C1H1'' = ''C1H1''" "trim ''C0H0'' = ''C0H0''" by code_simp+
  have s: "splitOn (CHR 0x0A) ''C0H0'' = [''C0H0'']" by code_simp
  have hf: "formulas (handleFormulaFile [''ID'', ''formulas'']
              [[''ID'' \<mapsto> ''1'', ''formulas'' \<mapsto> ''C1H1''], [''ID'' \<mapsto> ''2'', ''formulas'' \<mapsto> ''C1H1'']]
              st) =
       [\<lparr>id' = ''1'', originalFormula = zeroFormula\<lparr>carbon := 1, hydrogen := 1\<rparr>\<rparr>,
        \<lparr>id' = ''2'', originalFormula = zeroFormula\<lparr>carbon := 1, hydrogen := 1\<rparr>\<rparr>]"
    by (simp add: handleFormulaFile_def v truthy_def t p1 Let_def)
  have hc: "\<And>s0. corrections (handleCorrectionFile ''C0H0'' s0) = [\<lparr>formula = zeroFormula\<rparr>]
      \<and> formulas (handleCorrectionFile ''C0H0'' s0) = formulas s0"
    by (simp add: handleCorrectionFile_def s t p0 Let_def)
  show ?thesis
    by (simp add: formulasByFormula_snoc formulasByFormula_last p1 p0 m
        applyCorrections_def hc hf)
qed




text \<open>
  Claim C4 as stated fails: with one entry loaded and no correction, \<open>applyCorrections\<close>
  stores the error \<open>No formulas or corrections loaded\<close>.
\<close>
theorem empty_corrections_counterexample:
  "formulas
     \<lparr>formulas = [\<lparr>id' = ''1'', originalFormula = zeroFormula\<lparr>carbon := 1\<rparr>\<rparr>],
      corrections = [], results = [], error = None, isLoading = False,
      processProgress = (0, 0), isProcessing = False\<rparr> \<noteq> []
   \<and> corrections
     \<lparr>formulas = [\<lparr>id' = ''1'', originalFormula = zeroFormula\<lparr>carbon := 1\<rparr>\<rparr>],
      corrections = [], results = [], error = None, isLoading = False,
      processProgress = (0, 0), isProcessing = False\<rparr> = []
   \<and> map_option error
       (applyCorrections
         \<lparr>formulas = [\<lparr>id' = ''1'', originalFormula = zeroFormula\<lparr>carbon := 1\<rparr>\<rparr>],
          corrections = [], results = [], error = None, isLoading = False,
          processProgress = (0, 0), isProcessing = False\<rparr>) =
     Some (Some ''No formulas or corrections loaded'')"
  by (simp add: applyCorrections_def)

text \<open>
  Claim C4, amended. With an empty correction list \<open>applyCorrections\<close> returns without
  starting a run: it stores the error \<open>No formulas or corrections loaded\<close> and changes
  nothing else, so no match is added and the stored results stay as they were. The
  matching loop itself, on an empty correction list, returns the empty list.
\<close>
theorem empty_corrections_guard:
  assumes "corrections st = []"
  shows "applyCorrections st = Some (st\<lparr>error := Some ''No formulas or corrections loaded''\<rparr>)
    \<and> matchingLoop (formulas st) (corrections st) = Some []"
  using assms
  by (simp add: applyCorrections_def matchingLoop_def batchLoop_specMatch specMatch_def)

text \<open>The guard on a state with one entry and no correction.\<close>
theorem empty_corrections_guard_witness:
  "corrections
     \<lparr>formulas = [\<lparr>id' = ''1'', originalFormula = zeroFormula\<lparr>carbon := 1\<rparr>\<rparr>],
      corrections = [], results = [], error = None, isLoading = False,
      processProgress = (0, 0), isProcessing = False\<rparr> = []
   \<and> applyCorrections
       \<lparr>formulas = [\<lparr>id' = ''1'', originalFormula = zeroFormula\<lparr>carbon := 1\<rparr>\<rparr>],
        corrections = [], results = [], error = None, isLoading = False,
        processProgress = (0, 0), isProcessing = False\<rparr> =
     Some
       \<lparr>formulas = [\<lparr>id' = ''1'', originalFormula = zeroFormula\<lparr>carbon := 1\<rparr>\<rparr>],
        corrections = [], results = [], error = Some ''No formulas or corrections loaded'',
        isLoading = False, processProgress = (0, 0), isProcessing = False\<rparr>
   \<and> matchingLoop [\<lparr>id' = ''1'', originalFormula = zeroFormula\<lparr>carbon := 1\<rparr>\<rparr>] [] = Some []"
  using empty_corrections_guard
    [of "\<lparr>formulas = [\<lparr>id' = ''1'', originalFormula = zeroFormula\<lparr>carbon := 1\<rparr>\<rparr>],
        corrections = [], results = [], error = None, isLoading = False,
        processProgress = (0, 0), isProcessing = False\<rparr>"]
  by simp

text \<open>
  Claim C5. For every batch size of at least one the batched loop returns, and its
  result is the list of the flat double loop, entries outside and corrections inside,
  both in input order; so does the loop with the batch size of the source.
\<close>
theorem batching_is_result_invariant:
  assumes "1 \<le> batchSize"
  shows "batchLoop batchSize (formulasByFormula fs) cs fs 0 [] = Some (specMatch fs cs)
    \<and> matchingLoop fs cs = Some (specMatch fs cs)"
  using assms by (simp add: matchingLoop_def batchLoop_specMatch)

text \<open>Three entries in batches of one, with two corrections.\<close>
theorem batching_is_result_invariant_witness:
  "(1::nat) \<le> 1
   \<and> batchLoop 1
       (formulasByFormula
         [\<lparr>id' = ''1'', originalFormula = zeroFormula\<lparr>hydrogen := 1\<rparr>\<rparr>,
          \<lparr>id' = ''2'', originalFormula = zeroFormula\<lparr>hydrogen := 2\<rparr>\<rparr>,
          \<lparr>id' = ''3'', originalFormula = zeroFormula\<lparr>hydrogen := 3\<rparr>\<rparr>])
       [\<lparr>formula = zeroFormula\<lparr>hydrogen := 1\<rparr>\<rparr>, \<lparr>formula = zeroFormula\<lparr>hydrogen := 2\<rparr>\<rparr>]
       [\<lparr>id' = ''1'', originalFormula = zeroFormula\<lparr>hydrogen := 1\<rparr>\<rparr>,
        \<lparr>id' = ''2'', originalFormula = zeroFormula\<lparr>hydrogen := 2\<rparr>\<rparr>,
        \<lparr>id' = ''3'', originalFormula = zeroFormula\<lparr>hydrogen := 3\<rparr>\<rparr>]
       0 [] =
     Some
       [\<lparr>originalEntry = \<lparr>id' = ''1'', originalFormula = zeroFormula\<lparr>hydrogen := 1\<rparr>\<rparr>,
         matchedEntry = \<lparr>id' = ''2'', originalFormula = zeroFormula\<lparr>hydrogen := 2\<rparr>\<rparr>,
         appliedCorrection = zeroFormula\<lparr>hydrogen := 1\<rparr>\<rparr>,
        \<lparr>originalEntry = \<lparr>id' = ''1'', originalFormula = zeroFormula\<lparr>hydrogen := 1\<rparr>\<rparr>,
         matchedEntry = \<lparr>id' = ''3'', originalFormula = zeroFormula\<lparr>hydrogen := 3\<rparr>\<rparr>,
         appliedCorrection = zeroFormula\<lparr>hydrogen := 2\<rparr>\<rparr>,
        \<lparr>originalEntry = \<lparr>id' = ''2'', originalFormula = zeroFormula\<lparr>hydrogen := 2\<rparr>\<rparr>,
         matchedEntry = \<lparr>id' = ''3'', originalFormula = zeroFormula\<lparr>hydrogen := 3\<rparr>\<rparr>,
         appliedCorrection = zeroFormula\<lparr>hydrogen := 1\<rparr>\<rparr>]"
proof -
  let ?F = "[\<lparr>id' = ''1'', originalFormula = zeroFormula\<lparr>hydrogen := 1\<rparr>\<rparr>,
          \<lparr>id' = ''2'', originalFormula = zeroFormula\<lparr>hydrogen := 2\<rparr>\<rparr>,
          \<lparr>id' = ''3'', originalFormula = zeroFormula\<lparr>hydrogen := 3\<rparr>\<rparr>]"
  let ?C = "[\<lparr>formula = zeroFormula\<lparr>hydrogen := 1\<rparr>\<rparr>, \<lparr>formula = zeroFormula\<lparr>hydrogen := 2\<rparr>\<rparr>]"
  have h: "(1::nat) \<le> 1" by simp
  have s: "specMatch ?F ?C =
       [\<lparr>originalEntry = \<lparr>id' = ''1'', originalFormula = zeroFormula\<lparr>hydrogen := 1\<rparr>\<rparr>,
         matchedEntry = \<lparr>id' = ''2'', originalFormula = zeroFormula\<lparr>hydrogen := 2\<rparr>\<rparr>,
         appliedCorrection = zeroFormula\<lparr>hydrogen := 1\<rparr>\<rparr>,
        \<lparr>originalEntry = \<lparr>id' = ''1'', originalFormula = zeroFormula\<lparr>hydrogen := 1\<rparr>\<rparr>,
         matchedEntry = \<lparr>id' = ''3'', originalFormula = zeroFormula\<lparr>hydrogen := 3\<rparr>\<rparr>,
         appliedCorrection = zeroFormula\<lparr>hydrogen := 2\<rparr>\<rparr>,
        \<lparr>originalEntry = \<lparr>id' = ''2'', originalFormula = zeroFormula\<lparr>hydrogen := 2\<rparr>\<rparr>,
         matchedEntry = \<lparr>id' = ''3'', originalFormula = zeroFormula\<lparr>hydrogen := 3\<rparr>\<rparr>,
         appliedCorrection = zeroFormula\<lparr>hydrogen := 1\<rparr>\<rparr>]"
    by code_simp
  from batching_is_result_invariant [OF h, of ?F ?C] s h show ?thesis
    by (simp only: simp_thms)
qed

text \<open>
  Claim C6. \<open>parseFormulaString\<close> is a total function (its loop terminates on every
  text); the empty text, \<open>Xy\<close> and \<open>C\<close> parse to the all-zero formula, and
  \<open>C3H8\<close> to carbon 3, hydrogen 8 and zero elsewhere.
\<close>
theorem parse_defaults:
  "parseFormulaString '''' = zeroFormula
   \<and> parseFormulaString ''Xy'' = zeroFormula
   \<and> parseFormulaString ''C'' = zeroFormula
   \<and> parseFormulaString ''C3H8'' = zeroFormula\<lparr>carbon := 3, hydrogen := 8\<rparr>"
  by code_simp

text \<open>
  Claim C7. When no trimmed header is \<open>formulas\<close>, validation fails and the load stores
  the error \<open>Missing required column(s): \<close> followed by the missing columns: exactly
  \<open>formulas\<close> when some trimmed header is \<open>ID\<close> (and \<open>ID, formulas\<close> when \<open>ID\<close>
  is missing as well). The load is aborted and the catalog is set to the empty list,
  whatever the rows.
\<close>
theorem schema_validation:
  assumes "''formulas'' \<notin> trim ` set headers"
  shows "validateCSVStructure headers =
      \<lparr>isValid = False,
       message = Some (''Missing required column(s): '' @
         (if ''ID'' \<in> trim ` set headers then ''formulas'' else ''ID, formulas''))\<rparr>
    \<and> handleFormulaFile headers rows st =
      st\<lparr>error := Some (''Missing required column(s): '' @
           (if ''ID'' \<in> trim ` set headers then ''formulas'' else ''ID, formulas'')),
         formulas := [], isLoading := False\<rparr>"
proof -
  have v: "validateCSVStructure headers =
      \<lparr>isValid = False,
       message = Some (''Missing required column(s): '' @
         (if ''ID'' \<in> trim ` set headers then ''formulas'' else ''ID, formulas''))\<rparr>"
    unfolding validateCSVStructure_def missing_formulas_columns [OF assms]
    by simp
  show ?thesis
    by (rule conjI [OF v]) (simp add: handleFormulaFile_def v)
qed

text \<open>A header set with \<open>ID\<close> (padded with blanks) and without \<open>formulas\<close>.\<close>
theorem schema_validation_witness:
  "''formulas'' \<notin> trim ` set ['' ID '', ''mz'']
   \<and> handleFormulaFile ['' ID '', ''mz''] [['' ID '' \<mapsto> ''7'', ''mz'' \<mapsto> ''18.01'']]
       \<lparr>formulas = [\<lparr>id' = ''1'', originalFormula = zeroFormula\<rparr>], corrections = [],
        results = [], error = None, isLoading = False, processProgress = (0, 0),
        isProcessing = False\<rparr> =
     \<lparr>formulas = [], corrections = [], results = [],
      error = Some ''Missing required column(s): formulas'', isLoading = False,
      processProgress = (0, 0), isProcessing = False\<rparr>"
proof -
  have t: "trim '' ID '' = ''ID''" "trim ''mz'' = ''mz''" by code_simp+
  then have h: "''formulas'' \<notin> trim ` set ['' ID '', ''mz'']" by simp
  from schema_validation [OF h] h t show ?thesis by simp
qed

text \<open>
  Claim C8 as stated fails: the export writes a blank on each side of every equals sign,
  so the description of a match is not the string of the specification.
\<close>
theorem export_description_counterexample:
  "Matches
     (hd (exportData
       [\<lparr>id' = ''1'', originalFormula = zeroFormula\<lparr>carbon := 10, hydrogen := 20, nitrogen := 2, oxygen := 5, sulfur := 1\<rparr>\<rparr>]
       [\<lparr>originalEntry = \<lparr>id' = ''1'', originalFormula = zeroFormula\<lparr>carbon := 10, hydrogen := 20, nitrogen := 2, oxygen := 5, sulfur := 1\<rparr>\<rparr>,
         matchedEntry = \<lparr>id' = ''2'', originalFormula = zeroFormula\<lparr>carbon := 10, hydrogen := 21, nitrogen := 2, oxygen := 5, sulfur := 1\<rparr>\<rparr>,
         appliedCorrection = zeroFormula\<lparr>hydrogen := 1\<rparr>\<rparr>])) =
     ''[correction = C0H1Cl0N0O0P0S0 result = (ID 2) C10H21Cl0N2O5P0S1]''
   \<and> specMatchDescriptions
       [\<lparr>originalEntry = \<lparr>id' = ''1'', originalFormula = zeroFormula\<lparr>carbon := 10, hydrogen := 20, nitrogen := 2, oxygen := 5, sulfur := 1\<rparr>\<rparr>,
         matchedEntry = \<lparr>id' = ''2'', originalFormula = zeroFormula\<lparr>carbon := 10, hydrogen := 21, nitrogen := 2, oxygen := 5, sulfur := 1\<rparr>\<rparr>,
         appliedCorrection = zeroFormula\<lparr>hydrogen := 1\<rparr>\<rparr>]
       \<lparr>id' = ''1'', originalFormula = zeroFormula\<lparr>carbon := 10, hydrogen := 20, nitrogen := 2, oxygen := 5, sulfur := 1\<rparr>\<rparr> =
     [''correction=C0H1Cl0N0O0P0S0 result=(ID 2) C10H21Cl0N2O5P0S1'']
   \<and> describeMatch
       \<lparr>originalEntry = \<lparr>id' = ''1'', originalFormula = zeroFormula\<lparr>carbon := 10, hydrogen := 20, nitrogen := 2, oxygen := 5, sulfur := 1\<rparr>\<rparr>,
        matchedEntry = \<lparr>id' = ''2'', originalFormula = zeroFormula\<lparr>carbon := 10, hydrogen := 21, nitrogen := 2, oxygen := 5, sulfur := 1\<rparr>\<rparr>,
        appliedCorrection = zeroFormula\<lparr>hydrogen := 1\<rparr>\<rparr> \<noteq>
     specDescribeMatch
       \<lparr>originalEntry = \<lparr>id' = ''1'', originalFormula = zeroFormula\<lparr>carbon := 10, hydrogen := 20, nitrogen := 2, oxygen := 5, sulfur := 1\<rparr>\<rparr>,
        matchedEntry = \<lparr>id' = ''2'', originalFormula = zeroFormula\<lparr>carbon := 10, hydrogen := 21, nitrogen := 2, oxygen := 5, sulfur := 1\<rparr>\<rparr>,
        appliedCorrection = zeroFormula\<lparr>hydrogen := 1\<rparr>\<rparr>"
  by code_simp

text \<open>
  Claim C8, amended. The export has one row for each entry of the sorted list. Its match
  count is the number of results whose original entry has the entry's id, and when there
  is one at least, its \<open>Matches\<close> field is, between brackets and joined by a comma and
  a blank, the strings \<open>correction = <delta> result = (ID <matchedId>) <matchedFormula>\<close>
  (delta and matched formula in canonical form), one for each such result, in the order
  of the results.
\<close>
theorem export_row_descriptions:
  assumes "i < length sortedFormulas"
  shows "length (exportData sortedFormulas rs) = length sortedFormulas
    \<and> ID (exportData sortedFormulas rs ! i) = id' (sortedFormulas ! i)
    \<and> NumberOfMatches (exportData sortedFormulas rs ! i) =
        length (filter (\<lambda>r. id' (originalEntry r) = id' (sortedFormulas ! i)) rs)
    \<and> (filter (\<lambda>r. id' (originalEntry r) = id' (sortedFormulas ! i)) rs \<noteq> [] \<longrightarrow>
        Matches (exportData sortedFormulas rs ! i) =
          ''['' @
          joinWith '', ''
            (map (\<lambda>m. ''correction = '' @ toFormulaString (appliedCorrection m) @
                       '' result = (ID '' @ id' (matchedEntry m) @ '') '' @
                       toFormulaString (originalFormula (matchedEntry m)))
               (filter (\<lambda>r. id' (originalEntry r) = id' (sortedFormulas ! i)) rs)) @
          '']'')"
proof -
  have d: "describeMatch = (\<lambda>m. ''correction = '' @ toFormulaString (appliedCorrection m) @
                       '' result = (ID '' @ id' (matchedEntry m) @ '') '' @
                       toFormulaString (originalFormula (matchedEntry m)))"
    by (rule ext) (simp add: describeMatch_def)
  have l: "length (exportData sortedFormulas rs) = length sortedFormulas"
    by (simp add: exportData_def)
  show ?thesis
    unfolding exportData_nth [OF assms] d Let_def
    by (simp add: l)
qed

text \<open>An entry with two matches.\<close>
theorem export_row_descriptions_witness:
  "(0::nat) < length [\<lparr>id' = ''1'', originalFormula = zeroFormula\<lparr>hydrogen := 1\<rparr>\<rparr>]
   \<and> filter (\<lambda>r. id' (originalEntry r) = ''1'')
       [\<lparr>originalEntry = \<lparr>id' = ''1'', originalFormula = zeroFormula\<lparr>hydrogen := 1\<rparr>\<rparr>,
         matchedEntry = \<lparr>id' = ''2'', originalFormula = zeroFormula\<lparr>hydrogen := 2\<rparr>\<rparr>,
         appliedCorrection = zeroFormula\<lparr>hydrogen := 1\<rparr>\<rparr>,
        \<lparr>originalEntry = \<lparr>id' = ''1'', originalFormula = zeroFormula\<lparr>hydrogen := 1\<rparr>\<rparr>,
         matchedEntry = \<lparr>id' = ''3'', originalFormula = zeroFormula\<lparr>hydrogen := 3\<rparr>\<rparr>,
         appliedCorrection = zeroFormula\<lparr>hydrogen := 2\<rparr>\<rparr>] \<noteq> []
   \<and> Matches
       (exportData [\<lparr>id' = ''1'', originalFormula = zeroFormula\<lparr>hydrogen := 1\<rparr>\<rparr>]
         [\<lparr>originalEntry = \<lparr>id' = ''1'', originalFormula = zeroFormula\<lparr>hydrogen := 1\<rparr>\<rparr>,
           matchedEntry = \<lparr>id' = ''2'', originalFormula = zeroFormula\<lparr>hydrogen := 2\<rparr>\<rparr>,
           appliedCorrection = zeroFormula\<lparr>hydrogen := 1\<rparr>\<rparr>,
          \<lparr>originalEntry = \<lparr>id' = ''1'', originalFormula = zeroFormula\<lparr>hydrogen := 1\<rparr>\<rparr>,
           matchedEntry = \<lparr>id' = ''3'', originalFormula = zeroFormula\<lparr>hydrogen := 3\<rparr>\<rparr>,
           appliedCorrection = zeroFormula\<lparr>hydrogen := 2\<rparr>\<rparr>] ! 0) =
     ''[correction = C0H1Cl0N0O0P0S0 result = (ID 2) C0H2Cl0N0O0P0S0, correction = C0H2Cl0N0O0P0S0 result = (ID 3) C0H3Cl0N0O0P0S0]''"
proof -
  let ?S = "[\<lparr>id' = ''1'', originalFormula = zeroFormula\<lparr>hydrogen := 1\<rparr>\<rparr>]"
  let ?R = "[\<lparr>originalEntry = \<lparr>id' = ''1'', originalFormula = zeroFormula\<lparr>hydrogen := 1\<rparr>\<rparr>,
           matchedEntry = \<lparr>id' = ''2'', originalFormula = zeroFormula\<lparr>hydrogen := 2\<rparr>\<rparr>,
           appliedCorrection = zeroFormula\<lparr>hydrogen := 1\<rparr>\<rparr>,
          \<lparr>originalEntry = \<lparr>id' = ''1'', originalFormula = zeroFormula\<lparr>hydrogen := 1\<rparr>\<rparr>,
           matchedEntry = \<lparr>id' = ''3'', originalFormula = zeroFormula\<lparr>hydrogen := 3\<rparr>\<rparr>,
           appliedCorrection = zeroFormula\<lparr>hydrogen := 2\<rparr>\<rparr>]"
  have h: "(0::nat) < length ?S" by simp
  have f: "filter (\<lambda>r. id' (originalEntry r) = id' (?S ! 0)) ?R = ?R" by simp
  have s: "toFormulaString zeroFormula = ''C0H0Cl0N0O0P0S0''"
    "toFormulaString (zeroFormula\<lparr>hydrogen := 1\<rparr>) = ''C0H1Cl0N0O0P0S0''"
    "toFormulaString (zeroFormula\<lparr>hydrogen := 2\<rparr>) = ''C0H2Cl0N0O0P0S0''"
    "toFormulaString (zeroFormula\<lparr>hydrogen := 3\<rparr>) = ''C0H3Cl0N0O0P0S0''"
    by code_simp+
  from export_row_descriptions [OF h, of ?R]
  have "Matches (exportData ?S ?R ! 0) =
          ''['' @
          joinWith '', ''
            (map (\<lambda>m. ''correction = '' @ toFormulaString (appliedCorrection m) @
                       '' result = (ID '' @ id' (matchedEntry m) @ '') '' @
                       toFormulaString (originalFormula (matchedEntry m))) ?R) @
          '']''"
    unfolding f by simp
  then show ?thesis by (simp add: s)
qed

text \<open>
  Claim C9. A plus sign is not part of a count: a tracked element symbol followed by a
  plus sign and digits parses to the all-zero formula.
\<close>
theorem plus_sign_count_is_zero:
  assumes "el \<in> set [''C'', ''H'', ''N'', ''O'', ''S'', ''P'', ''Cl'']"
    and "\<forall>c\<in>set ds. isDigit c"
  shows "parseFormulaString (el @ ''+'' @ ds) = zeroFormula"
proof -
  have up: "isUpper CHR ''C''" "isUpper CHR ''H''" "isUpper CHR ''N''" "isUpper CHR ''O''"
    "isUpper CHR ''P''" "isUpper CHR ''S''"
    by (simp_all add: isUpper_def)
  have lo: "isLower CHR ''l''" by (simp add: isLower_def)
  from assms(1) consider "el = ''C''" | "el = ''H''" | "el = ''N''" | "el = ''O''"
    | "el = ''S''" | "el = ''P''" | "el = ''Cl''" by auto
  then show ?thesis
  proof cases
    case 7
    then show ?thesis
      by (simp add: parseFormulaString_def parseLoop_plus2 [OF up(1) lo assms(2)]
          orZero_def zeroFormula_def)
  qed (simp_all add: parseFormulaString_def parseLoop_plus1 [OF _ assms(2)] up
        orZero_def zeroFormula_def)
qed

text \<open>\<open>C+3\<close> gives no carbon, where \<open>C-3\<close> gives carbon minus three.\<close>
theorem plus_sign_count_is_zero_witness:
  "''C'' \<in> set [''C'', ''H'', ''N'', ''O'', ''S'', ''P'', ''Cl''] \<and> isDigit CHR ''3''
   \<and> parseFormulaString ''C+3'' = zeroFormula
   \<and> parseFormulaString ''C-3'' = zeroFormula\<lparr>carbon := - 3\<rparr>"
proof -
  have a: "''C'' \<in> set [''C'', ''H'', ''N'', ''O'', ''S'', ''P'', ''Cl'']" by simp
  have b: "\<forall>c\<in>set ''3''. isDigit c" by (simp add: isDigit_def)
  have c: "parseFormulaString ''C-3'' = zeroFormula\<lparr>carbon := - 3\<rparr>" by code_simp
  from plus_sign_count_is_zero [OF a b] a b c show ?thesis by simp
qed

text \<open>
  Claim C10. The \<open>Matches\<close> field of the row of an entry without a match is the empty
  string; the field of an entry with a match is not empty and stands between an opening
  and a closing bracket.
\<close>
theorem export_row_without_matches:
  assumes "i < length sortedFormulas"
  shows "(filter (\<lambda>r. id' (originalEntry r) = id' (sortedFormulas ! i)) rs = [] \<longrightarrow>
            Matches (exportData sortedFormulas rs ! i) = [])
    \<and> (filter (\<lambda>r. id' (originalEntry r) = id' (sortedFormulas ! i)) rs \<noteq> [] \<longrightarrow>
            hd (Matches (exportData sortedFormulas rs ! i)) = CHR ''[''
          \<and> last (Matches (exportData sortedFormulas rs ! i)) = CHR '']''
          \<and> Matches (exportData sortedFormulas rs ! i) \<noteq> [])"
  unfolding exportData_nth [OF assms] Let_def
  by simp

text \<open>A row without a match and a row with one.\<close>
theorem export_row_without_matches_witness:
  "(1::nat) < length [\<lparr>id' = ''1'', originalFormula = zeroFormula\<lparr>hydrogen := 1\<rparr>\<rparr>,
                      \<lparr>id' = ''2'', originalFormula = zeroFormula\<lparr>hydrogen := 2\<rparr>\<rparr>]
   \<and> filter (\<lambda>r. id' (originalEntry r) = ''2'')
       [\<lparr>originalEntry = \<lparr>id' = ''1'', originalFormula = zeroFormula\<lparr>hydrogen := 1\<rparr>\<rparr>,
         matchedEntry = \<lparr>id' = ''2'', originalFormula = zeroFormula\<lparr>hydrogen := 2\<rparr>\<rparr>,
         appliedCorrection = zeroFormula\<lparr>hydrogen := 1\<rparr>\<rparr>] = []
   \<and> Matches
       (exportData
         [\<lparr>id' = ''1'', originalFormula = zeroFormula\<lparr>hydrogen := 1\<rparr>\<rparr>,
          \<lparr>id' = ''2'', originalFormula = zeroFormula\<lparr>hydrogen := 2\<rparr>\<rparr>]
         [\<lparr>originalEntry = \<lparr>id' = ''1'', originalFormula = zeroFormula\<lparr>hydrogen := 1\<rparr>\<rparr>,
           matchedEntry = \<lparr>id' = ''2'', originalFormula = zeroFormula\<lparr>hydrogen := 2\<rparr>\<rparr>,
           appliedCorrection = zeroFormula\<lparr>hydrogen := 1\<rparr>\<rparr>] ! 1) = []
   \<and> filter (\<lambda>r. id' (originalEntry r) = ''1'')
       [\<lparr>originalEntry = \<lparr>id' = ''1'', originalFormula = zeroFormula\<lparr>hydrogen := 1\<rparr>\<rparr>,
         matchedEntry = \<lparr>id' = ''2'', originalFormula = zeroFormula\<lparr>hydrogen := 2\<rparr>\<rparr>,
         appliedCorrection = zeroFormula\<lparr>hydrogen := 1\<rparr>\<rparr>] \<noteq> []
   \<and> hd (Matches
       (exportData
         [\<lparr>id' = ''1'', originalFormula = zeroFormula\<lparr>hydrogen := 1\<rparr>\<rparr>,
          \<lparr>id' = ''2'', originalFormula = zeroFormula\<lparr>hydrogen := 2\<rparr>\<rparr>]
         [\<lparr>originalEntry = \<lparr>id' = ''1'', originalFormula = zeroFormula\<lparr>hydrogen := 1\<rparr>\<rparr>,
           matchedEntry = \<lparr>id' = ''2'', originalFormula = zeroFormula\<lparr>hydrogen := 2\<rparr>\<rparr>,
           appliedCorrection = zeroFormula\<lparr>hydrogen := 1\<rparr>\<rparr>] ! 0)) = CHR ''[''"
proof -
  let ?S = "[\<lparr>id' = ''1'', originalFormula = zeroFormula\<lparr>hydrogen := 1\<rparr>\<rparr>,
          \<lparr>id' = ''2'', originalFormula = zeroFormula\<lparr>hydrogen := 2\<rparr>\<rparr>]"
  let ?R = "[\<lparr>originalEntry = \<lparr>id' = ''1'', originalFormula = zeroFormula\<lparr>hydrogen := 1\<rparr>\<rparr>,
           matchedEntry = \<lparr>id' = ''2'', originalFormula = zeroFormula\<lparr>hydrogen := 2\<rparr>\<rparr>,
           appliedCorrection = zeroFormula\<lparr>hydrogen := 1\<rparr>\<rparr>]"
  have h1: "(1::nat) < length ?S" and h0: "(0::nat) < length ?S" by simp_all
  from export_row_without_matches [OF h1, of ?R] export_row_without_matches [OF h0, of ?R]
  show ?thesis by simp
qed

end
